theory Spec2Isabelle
  imports Main
begin

section \<open>Python values, errors and text primitives\<close>

text \<open>
  The formatter is dynamically typed: it inspects its arguments with \<open>isinstance\<close> and
  \<open>len\<close>, and prints whatever sits inside a state entry with an f-string. The values the
  formatter can be handed are therefore modelled as one datatype: \<open>None\<close>, integers, text,
  tuples, lists and dictionaries. A dictionary is an association list in insertion order.
  Floats and user classes are outside the model. Text is a list of 8-bit characters read
  as code points below 256.
\<close>

datatype pyval =
    VNone
  | VInt int
  | VStr string
  | VTuple "pyval list"
  | VList "pyval list"
  | VDict "(pyval \<times> pyval) list"

datatype error = TypeError | ValueError | IndexError | KeyError

text \<open>A raised exception ends the computation: the rest runs on a returned value only.\<close>

definition and_then :: "error + 'a \<Rightarrow> ('a \<Rightarrow> error + 'b) \<Rightarrow> error + 'b" where
  "and_then m f = (case m of Inl e \<Rightarrow> Inl e | Inr x \<Rightarrow> f x)"

text \<open>A list comprehension \<open>[f(x) for x in xs]\<close>: left to right, the first exception wins.\<close>

fun map_err :: "('a \<Rightarrow> error + 'b) \<Rightarrow> 'a list \<Rightarrow> error + 'b list" where
  "map_err f [] = Inr []"
| "map_err f (x # xs) =
     and_then (f x) (\<lambda>y. and_then (map_err f xs) (\<lambda>ys. Inr (y # ys)))"

subsection \<open>Built-in text operations\<close>

text \<open>\<open>sep.join(xs)\<close>.\<close>

fun py_join :: "string \<Rightarrow> string list \<Rightarrow> string" where
  "py_join sep [] = []"
| "py_join sep [x] = x"
| "py_join sep (x # y # ys) = x @ sep @ py_join sep (y # ys)"

text \<open>\<open>s.split(c)\<close> for a separator of one character: the result is never empty, and
  \<open>n\<close> separators give \<open>n + 1\<close> pieces (empty pieces are kept).\<close>

fun py_split :: "char \<Rightarrow> string \<Rightarrow> string list" where
  "py_split c [] = [[]]"
| "py_split c (x # xs) =
     (if x = c then [] # py_split c xs
      else (case py_split c xs of [] \<Rightarrow> [[x]] | piece # pieces \<Rightarrow> (x # piece) # pieces))"

text \<open>\<open>str.isspace\<close> on one character: the white space below code point 256.\<close>

definition py_isspace :: "char \<Rightarrow> bool" where
  "py_isspace c \<longleftrightarrow>
     c \<in> set [CHR 0x09, CHR 0x0A, CHR 0x0B, CHR 0x0C, CHR 0x0D, CHR 0x1C, CHR 0x1D,
              CHR 0x1E, CHR 0x1F, CHR 0x20, CHR 0x85, CHR 0xA0]"

text \<open>\<open>s.strip()\<close>.\<close>

definition py_strip :: "string \<Rightarrow> string" where
  "py_strip s = rev (dropWhile py_isspace (rev (dropWhile py_isspace s)))"

text \<open>\<open>str.isnumeric\<close> on one character: the decimal digits, and below code point 256 also
  the superscripts two, three, one and the fractions one quarter, one half, three quarters.\<close>

definition py_isnumeric :: "char \<Rightarrow> bool" where
  "py_isnumeric c \<longleftrightarrow>
     c \<in> set (''0123456789'' @ [CHR 0xB2, CHR 0xB3, CHR 0xB9, CHR 0xBC, CHR 0xBD, CHR 0xBE])"

text \<open>\<open>s.upper()\<close>, character by character on the code points below 256: the letters a
  to z and the accented letters \<open>0xE0\<close> to \<open>0xFE\<close> (the division sign \<open>0xF7\<close> apart) move
  down by 32, the sharp s \<open>0xDF\<close> becomes \<open>SS\<close>, every other character stays. The micro
  sign \<open>0xB5\<close> and the y with diaeresis \<open>0xFF\<close> have upper-case forms above code point 255,
  which this text cannot hold: \<open>upper_in_text\<close> excludes them, and a statement about
  upper-casing holds for the texts without them.\<close>

definition upper_char :: "char \<Rightarrow> string" where
  "upper_char c =
     (let n = (of_char c :: nat) in
      if (97 \<le> n \<and> n \<le> 122) \<or> (224 \<le> n \<and> n \<le> 254 \<and> n \<noteq> 247)
      then [char_of (n - 32)]
      else if n = 223 then ''SS''
      else [c])"

definition py_upper :: "string \<Rightarrow> string" where
  "py_upper s = concat (map upper_char s)"

definition upper_in_text :: "char \<Rightarrow> bool" where
  "upper_in_text c \<longleftrightarrow> c \<noteq> CHR 0xB5 \<and> c \<noteq> CHR 0xFF"

subsection \<open>\<open>str\<close> and \<open>repr\<close>\<close>

definition digit_char :: "nat \<Rightarrow> char" where
  "digit_char d = ''0123456789abcdef'' ! (d mod 16)"

fun string_of_nat :: "nat \<Rightarrow> string" where
  "string_of_nat n =
     (if n < 10 then [digit_char n] else string_of_nat (n div 10) @ [digit_char (n mod 10)])"

declare string_of_nat.simps [simp del]

definition string_of_int :: "int \<Rightarrow> string" where
  "string_of_int i =
     (if i < 0 then CHR ''-'' # string_of_nat (nat (- i)) else string_of_nat (nat i))"

text \<open>\<open>repr\<close> of text: single quotes, unless the text has a single quote and no double
  quote; the quote and the backslash are escaped, tab, newline and return have their
  letters, every other character that is not printable is written \<open>\xhh\<close>.\<close>

definition not_printable :: "char \<Rightarrow> bool" where
  "not_printable c \<longleftrightarrow>
     (of_char c :: nat) < 32 \<or> (127 \<le> (of_char c :: nat) \<and> (of_char c :: nat) \<le> 160)
     \<or> (of_char c :: nat) = 173"

definition escape_char :: "char \<Rightarrow> char \<Rightarrow> string" where
  "escape_char q c =
     (if c = q \<or> c = CHR 0x5C then [CHR 0x5C, c]
      else if c = CHR 0x09 then [CHR 0x5C, CHR ''t'']
      else if c = CHR 0x0A then [CHR 0x5C, CHR ''n'']
      else if c = CHR 0x0D then [CHR 0x5C, CHR ''r'']
      else if not_printable c then
        [CHR 0x5C, CHR ''x'', digit_char (of_char c div 16), digit_char (of_char c mod 16)]
      else [c])"

definition py_repr_str :: "string \<Rightarrow> string" where
  "py_repr_str s =
     (let q = (if CHR 0x27 \<in> set s \<and> CHR 0x22 \<notin> set s then CHR 0x22 else CHR 0x27)
      in q # concat (map (escape_char q) s) @ [q])"

fun py_repr :: "pyval \<Rightarrow> string" where
  "py_repr VNone = ''None''"
| "py_repr (VInt i) = string_of_int i"
| "py_repr (VStr s) = py_repr_str s"
| "py_repr (VTuple xs) =
     ''('' @ py_join '', '' (map py_repr xs) @ (if length xs = 1 then '',)'' else '')'')"
| "py_repr (VList xs) = ''['' @ py_join '', '' (map py_repr xs) @ '']''"
| "py_repr (VDict kvs) =
     ''{'' @ py_join '', '' (map (\<lambda>kv. py_repr (fst kv) @ '': '' @ py_repr (snd kv)) kvs) @ ''}''"

text \<open>\<open>str(v)\<close>, which is also what an f-string field \<open>{v}\<close> prints.\<close>

definition py_str :: "pyval \<Rightarrow> string" where
  "py_str v = (case v of VStr s \<Rightarrow> s | _ \<Rightarrow> py_repr v)"

section \<open>The rate renderer\<close>

text \<open>\<open>get_rate\<close>: \<open>validate_rate\<close> raises TypeError unless the rate is text; then
  \<open>"".join(rate.split(".")).upper()\<close>.\<close>

definition is_str :: "pyval \<Rightarrow> bool" where
  "is_str v = (case v of VStr s \<Rightarrow> True | _ \<Rightarrow> False)"

definition validate_rate :: "pyval \<Rightarrow> error + unit" where
  "validate_rate rate = (if \<not> is_str rate then Inl TypeError else Inr ())"

definition get_rate :: "pyval \<Rightarrow> error + string" where
  "get_rate rate =
     and_then (validate_rate rate) (\<lambda>_.
       case rate of
         VStr s \<Rightarrow> Inr (py_upper (py_join [] (py_split (CHR ''.'') s)))
       | _ \<Rightarrow> Inl TypeError)"

text \<open>\<open>get_rate_value\<close>: the rendered rate, then \<open>f" = {value}"\<close>.\<close>

definition get_rate_value :: "pyval \<Rightarrow> pyval \<Rightarrow> error + string" where
  "get_rate_value rate val =
     and_then (get_rate rate) (\<lambda>rate_string. Inr (rate_string @ '' = '' @ py_str val))"

section \<open>Generic operations on values\<close>

text \<open>\<open>len(v)\<close>: TypeError for \<open>None\<close> and integers.\<close>

definition py_len :: "pyval \<Rightarrow> error + nat" where
  "py_len v =
     (case v of
        VStr s \<Rightarrow> Inr (length s)
      | VTuple xs \<Rightarrow> Inr (length xs)
      | VList xs \<Rightarrow> Inr (length xs)
      | VDict kvs \<Rightarrow> Inr (length kvs)
      | _ \<Rightarrow> Inl TypeError)"

text \<open>\<open>d[k]\<close> on a dictionary: KeyError for a missing key.\<close>

definition py_dict_get :: "(pyval \<times> pyval) list \<Rightarrow> pyval \<Rightarrow> error + pyval" where
  "py_dict_get kvs k = (case map_of kvs k of Some v \<Rightarrow> Inr v | None \<Rightarrow> Inl KeyError)"

text \<open>\<open>v[i]\<close> for the literal indices 0 and 1 the formatter uses: IndexError out of range
  of a sequence, a one-character text out of a text, a key lookup on a dictionary,
  TypeError for \<open>None\<close> and integers.\<close>

definition py_getitem :: "pyval \<Rightarrow> nat \<Rightarrow> error + pyval" where
  "py_getitem v i =
     (case v of
        VTuple xs \<Rightarrow> (if i < length xs then Inr (xs ! i) else Inl IndexError)
      | VList xs \<Rightarrow> (if i < length xs then Inr (xs ! i) else Inl IndexError)
      | VStr s \<Rightarrow> (if i < length s then Inr (VStr [s ! i]) else Inl IndexError)
      | VDict kvs \<Rightarrow> py_dict_get kvs (VInt (int i))
      | _ \<Rightarrow> Inl TypeError)"

text \<open>Iterating a value in a \<open>for\<close>: the items of a sequence, the characters of a text,
  the keys of a dictionary; TypeError for \<open>None\<close> and integers.\<close>

definition py_iter :: "pyval \<Rightarrow> error + pyval list" where
  "py_iter v =
     (case v of
        VTuple xs \<Rightarrow> Inr xs
      | VList xs \<Rightarrow> Inr xs
      | VStr s \<Rightarrow> Inr (map (\<lambda>c. VStr [c]) s)
      | VDict kvs \<Rightarrow> Inr (map fst kvs)
      | _ \<Rightarrow> Inl TypeError)"

text \<open>\<open>v > k\<close> for an integer \<open>k\<close>: only an integer can be compared with one.\<close>

definition py_gt :: "pyval \<Rightarrow> int \<Rightarrow> error + bool" where
  "py_gt v k = (case v of VInt m \<Rightarrow> Inr (k < m) | _ \<Rightarrow> Inl TypeError)"

text \<open>\<open>xs[i:j]\<close> for \<open>0 \<le> i \<le> j\<close>: the bounds are clipped to the length.\<close>

definition py_slice :: "'a list \<Rightarrow> nat \<Rightarrow> nat \<Rightarrow> 'a list" where
  "py_slice xs i j = take (j - i) (drop i xs)"

text \<open>Only hashable values go into a \<open>set\<close>: lists and dictionaries do not, a tuple does
  when its items do.\<close>

fun hashable :: "pyval \<Rightarrow> bool" where
  "hashable VNone = True"
| "hashable (VInt i) = True"
| "hashable (VStr s) = True"
| "hashable (VTuple xs) = list_all hashable xs"
| "hashable (VList xs) = False"
| "hashable (VDict kvs) = False"

text \<open>\<open>set(xs)\<close>, held as a list without duplicates: TypeError for an unhashable item.\<close>

definition py_set :: "pyval list \<Rightarrow> error + pyval list" where
  "py_set xs = (if list_all hashable xs then Inr (remdups xs) else Inl TypeError)"

section \<open>The state renderer\<close>

text \<open>
  \<open>get_state(state, order)\<close>. The order is an integer. Python does not fix the order in
  which \<open>list(s)\<close> enumerates a set \<open>s\<close> (it follows the hashes, which change from one
  process to the next for text), so the enumeration is a parameter \<open>so\<close> of the model:
  \<open>so xs\<close> is the order in which the set with the members \<open>xs\<close> is listed.
\<close>

definition set_order :: "(pyval list \<Rightarrow> pyval list) \<Rightarrow> bool" where
  "set_order so \<longleftrightarrow> (\<forall>xs. distinct xs \<longrightarrow> distinct (so xs) \<and> set (so xs) = set xs)"

text \<open>\<open>format_entry\<close>: \<open>f"{entry0[0]}{entry0[1]}"\<close>.\<close>

definition format_entry :: "pyval \<Rightarrow> error + string" where
  "format_entry entry0 =
     and_then (py_getitem entry0 0) (\<lambda>a.
     and_then (py_getitem entry0 1) (\<lambda>b.
       Inr (py_str a @ py_str b)))"

text \<open>\<open>get_state_string\<close>: \<open>"P" + "".join(entries0) + "[t]"\<close>.\<close>

definition get_state_string :: "pyval list \<Rightarrow> error + string" where
  "get_state_string state0 =
     and_then (map_err format_entry state0) (\<lambda>entries0.
       Inr (''P'' @ py_join [] entries0 @ ''[t]''))"

text \<open>\<open>validate_state\<close> of \<open>get_state\<close>: the order first (ValueError), then the state is a
  tuple, then every substate is a tuple of length 2 (TypeError).\<close>

fun validate_substates :: "pyval list \<Rightarrow> error + unit" where
  "validate_substates [] = Inr ()"
| "validate_substates (substate # rest) =
     (case substate of
        VTuple xs \<Rightarrow> (if length xs \<noteq> 2 then Inl TypeError else validate_substates rest)
      | _ \<Rightarrow> Inl TypeError)"

definition validate_state :: "pyval \<Rightarrow> int \<Rightarrow> error + unit" where
  "validate_state state order0 =
     (if \<not> 0 \<le> order0 then Inl ValueError
      else case state of VTuple es \<Rightarrow> validate_substates es | _ \<Rightarrow> Inl TypeError)"

text \<open>\<open>get_numerator\<close>: for every index \<open>i\<close> of the state, stop when \<open>i + order\<close> is beyond
  the length, else append \<open>state[i: i + order]\<close>.\<close>

fun numerator_loop :: "pyval list \<Rightarrow> nat \<Rightarrow> pyval list list \<Rightarrow> nat list \<Rightarrow> pyval list list" where
  "numerator_loop state k state_list0 [] = state_list0"
| "numerator_loop state k state_list0 (i # rest) =
     (if i + k > length state then state_list0
      else numerator_loop state k (state_list0 @ [py_slice state i (i + k)]) rest)"

definition get_numerator :: "pyval list \<Rightarrow> nat \<Rightarrow> pyval list list" where
  "get_numerator state k = numerator_loop state k [] [0..<length state]"

text \<open>\<open>list(set(state0_0).intersection(set(state0_1)))\<close>.\<close>

definition intersecting_states ::
  "(pyval list \<Rightarrow> pyval list) \<Rightarrow> pyval list \<Rightarrow> pyval list \<Rightarrow> error + pyval list" where
  "intersecting_states so state0_0 state0_1 =
     and_then (py_set state0_0) (\<lambda>s0.
     and_then (py_set state0_1) (\<lambda>s1.
       Inr (so (filter (\<lambda>x. x \<in> set s1) s0))))"

text \<open>\<open>get_denominator\<close>: for every \<open>i\<close>, for every \<open>j\<close>, skip \<open>j \<le> i\<close>; else append the
  intersection of the two numerator states when it is not empty.\<close>

fun denominator_inner ::
  "(pyval list \<Rightarrow> pyval list) \<Rightarrow> nat \<Rightarrow> pyval list \<Rightarrow> pyval list list
     \<Rightarrow> (nat \<times> pyval list) list \<Rightarrow> error + pyval list list" where
  "denominator_inner so i state0_0 state_list0 [] = Inr state_list0"
| "denominator_inner so i state0_0 state_list0 ((j, state0_1) # rest) =
     (if j \<le> i then denominator_inner so i state0_0 state_list0 rest
      else and_then (intersecting_states so state0_0 state0_1) (\<lambda>intersecting_states0.
        if length intersecting_states0 > 0
        then denominator_inner so i state0_0 (state_list0 @ [intersecting_states0]) rest
        else denominator_inner so i state0_0 state_list0 rest))"

fun denominator_outer ::
  "(pyval list \<Rightarrow> pyval list) \<Rightarrow> pyval list list \<Rightarrow> pyval list list
     \<Rightarrow> (nat \<times> pyval list) list \<Rightarrow> error + pyval list list" where
  "denominator_outer so numerator_states state_list0 [] = Inr state_list0"
| "denominator_outer so numerator_states state_list0 ((i, state0_0) # rest) =
     and_then (denominator_inner so i state0_0 state_list0 (enumerate 0 numerator_states))
       (\<lambda>state_list1. denominator_outer so numerator_states state_list1 rest)"

definition get_denominator ::
  "(pyval list \<Rightarrow> pyval list) \<Rightarrow> pyval list list \<Rightarrow> error + pyval list list" where
  "get_denominator so numerator_states =
     denominator_outer so numerator_states [] (enumerate 0 numerator_states)"

text \<open>\<open>get_state\<close>: validate; render exactly when the order is 0 or at least the length;
  else the numerator strings joined by a space and, when there is a denominator,
  \<open>"/(" + " ".join(denominator strings) + ")"\<close>.\<close>

definition get_state :: "(pyval list \<Rightarrow> pyval list) \<Rightarrow> pyval \<Rightarrow> int \<Rightarrow> error + string" where
  "get_state so state order0 =
     and_then (validate_state state order0) (\<lambda>_.
       case state of
         VTuple es \<Rightarrow>
           if order0 = 0 \<or> order0 \<ge> int (length es) then get_state_string es
           else
             let numerator_states = get_numerator es (nat order0) in
             and_then (get_denominator so numerator_states) (\<lambda>denominator_states.
             and_then (map_err get_state_string numerator_states) (\<lambda>numerator_strings.
               let state_string = py_join '' '' numerator_strings in
               if length denominator_states > 0
               then and_then (map_err get_state_string denominator_states)
                      (\<lambda>denominator_strings.
                         Inr (state_string @ ''/('' @ py_join '' '' denominator_strings @ '')''))
               else Inr state_string))
       | _ \<Rightarrow> Inl TypeError)"

section \<open>The equation assembler\<close>

text \<open>\<open>format_state_multiplicity\<close>: the pair has length 2 (ValueError), then
  \<open>str(state0[1]) if state0[1] > 1 else ""\<close>, then the rendered \<open>state0[0]\<close>.\<close>

definition format_state_multiplicity ::
  "(pyval list \<Rightarrow> pyval list) \<Rightarrow> int \<Rightarrow> pyval \<Rightarrow> error + string" where
  "format_state_multiplicity so order0 state0 =
     and_then (py_len state0) (\<lambda>n.
       if \<not> n = 2 then Inl ValueError
       else
         and_then (py_getitem state0 1) (\<lambda>m.
         and_then (py_gt m 1) (\<lambda>above_one.
         and_then (py_getitem state0 0) (\<lambda>s.
         and_then (get_state so s order0) (\<lambda>state_string.
           Inr ((if above_one then py_str m else []) @ state_string))))))"

text \<open>\<open>format_create_decay\<close>: \<open>"+K (" + "+".join(create) + "-" + "-".join(decay) + ")"\<close>.\<close>

definition format_create_decay :: "pyval \<Rightarrow> string list \<Rightarrow> string list \<Rightarrow> error + string" where
  "format_create_decay key0 create_states0 decay_states0 =
     and_then (get_rate key0) (\<lambda>string_key.
       let create_string0 = py_join ''+'' create_states0;
           decay_string0 = ''-'' @ py_join ''-'' decay_states0
       in Inr (''+'' @ string_key @ '' ('' @ create_string0 @ decay_string0 @ '')''))"

text \<open>\<open>get_prefactor\<close>: the loop collects the leading numeric characters and counts them;
  the rest of the text is \<open>state_string1[j:]\<close>, or the whole text when \<open>j\<close> is its length.\<close>

fun prefactor_loop :: "nat \<Rightarrow> string \<Rightarrow> string \<Rightarrow> nat \<times> string" where
  "prefactor_loop j tmp_string1 [] = (j, tmp_string1)"
| "prefactor_loop j tmp_string1 (character # rest) =
     (if \<not> py_isnumeric character then (j, tmp_string1)
      else prefactor_loop (j + 1) (tmp_string1 @ [character]) rest)"

definition get_prefactor :: "string \<Rightarrow> string \<times> string" where
  "get_prefactor state_string1 =
     (case prefactor_loop 0 [] state_string1 of
        (j, tmp_string1) \<Rightarrow>
          (tmp_string1, if j < length state_string1 then drop j state_string1 else state_string1))"

text \<open>\<open>format_create_decay_single\<close>: the sign, then for exactly one state the prefactor,
  the rate and the state, separated by spaces; else the rate and the states joined by
  \<open>+\<close> in parentheses.\<close>

definition format_create_decay_single :: "pyval \<Rightarrow> string list \<Rightarrow> bool \<Rightarrow> error + string" where
  "format_create_decay_single key0 states0 decay =
     and_then (get_rate key0) (\<lambda>string_key.
       let create_decay_string0 = (if decay then ''-'' else ''+'') in
       if length states0 = 1 then
         (case get_prefactor (states0 ! 0) of
            (prefactor0, create_decay_string0_0) \<Rightarrow>
              Inr (create_decay_string0 @ prefactor0 @ '' '' @ string_key @ '' ''
                   @ create_decay_string0_0))
       else Inr (create_decay_string0 @ string_key @ '' ('' @ py_join ''+'' states0 @ '')''))"

text \<open>\<open>format_equation_string\<close>. Both \<open>equation_string0[0]\<close> and
  \<open>equation_string0_0[0]\<close> raise IndexError on an empty text.\<close>

definition format_equation_string :: "string \<Rightarrow> error + string" where
  "format_equation_string equation_string0 =
     (let stripped = py_strip equation_string0 in
      if equation_string0 = [] then Inl IndexError
      else
        let first_character0 = (if hd equation_string0 = CHR ''-'' then ''-'' else []) in
        if stripped = [] then Inl IndexError
        else
          let delete_first0 = (hd stripped = CHR ''-'' \<or> hd stripped = CHR ''+'');
              rest = (if delete_first0 then tl stripped else stripped);
              rest = py_strip rest;
              rest = py_join '' + '' (py_split (CHR ''+'') rest);
              rest = py_join '' - '' (py_split (CHR ''-'') rest)
          in Inr (first_character0 @ rest))"

text \<open>\<open>validate_state\<close> of \<open>get_equation\<close>: as the one of \<open>get_state\<close>, without an order.\<close>

definition validate_state0 :: "pyval \<Rightarrow> error + unit" where
  "validate_state0 state0 =
     (case state0 of VTuple es \<Rightarrow> validate_substates es | _ \<Rightarrow> Inl TypeError)"

text \<open>\<open>validate_equation\<close>: a tuple (TypeError) of length 3 (TypeError), whose first entry
  is a state, whose other two are dictionaries (TypeError) with the same set of keys
  (ValueError).\<close>

definition validate_equation :: "pyval \<Rightarrow> error + unit" where
  "validate_equation equation =
     (case equation of
        VTuple xs \<Rightarrow>
          if \<not> length xs = 3 then Inl TypeError
          else
            and_then (validate_state0 (xs ! 0)) (\<lambda>_.
              case (xs ! 1, xs ! 2) of
                (VDict creation, VDict decay) \<Rightarrow>
                  if \<not> set (map fst creation) = set (map fst decay) then Inl ValueError
                  else Inr ()
              | _ \<Rightarrow> Inl TypeError)
      | _ \<Rightarrow> Inl TypeError)"

text \<open>The loop over the keys of \<open>get_equation\<close>: the create states, then the decay
  states, are rendered; one of the three clauses, or nothing, is added to the text.\<close>

fun equation_loop ::
  "(pyval list \<Rightarrow> pyval list) \<Rightarrow> int \<Rightarrow> (pyval \<times> pyval) list \<Rightarrow> (pyval \<times> pyval) list
     \<Rightarrow> string \<Rightarrow> pyval list \<Rightarrow> error + string" where
  "equation_loop so order0 creation decay equation_string [] = Inr equation_string"
| "equation_loop so order0 creation decay equation_string (key # keys) =
     and_then (py_dict_get creation key) (\<lambda>create_list.
     and_then (py_iter create_list) (\<lambda>create_items.
     and_then (map_err (format_state_multiplicity so order0) create_items) (\<lambda>create_states.
     and_then (py_dict_get decay key) (\<lambda>decay_list.
     and_then (py_iter decay_list) (\<lambda>decay_items.
     and_then (map_err (format_state_multiplicity so order0) decay_items) (\<lambda>decay_states.
       if length decay_states > 0 \<and> length create_states = 0 then
         and_then (format_create_decay_single key decay_states True) (\<lambda>decay_string.
           equation_loop so order0 creation decay (equation_string @ decay_string) keys)
       else if length decay_states = 0 \<and> length create_states > 0 then
         and_then (format_create_decay_single key create_states False) (\<lambda>create_string.
           equation_loop so order0 creation decay (equation_string @ create_string) keys)
       else if length decay_states > 0 \<and> length create_states > 0 then
         and_then (format_create_decay key create_states decay_states) (\<lambda>create_decay_string.
           equation_loop so order0 creation decay (equation_string @ create_decay_string) keys)
       else equation_loop so order0 creation decay equation_string keys))))))"

text \<open>\<open>get_equation\<close>: validate, render the target state with order 0, run the loop,
  space the signs, and put the differential form in front.\<close>

definition get_equation :: "(pyval list \<Rightarrow> pyval list) \<Rightarrow> pyval \<Rightarrow> int \<Rightarrow> error + string" where
  "get_equation so equation order0 =
     and_then (validate_equation equation) (\<lambda>_.
       case equation of
         VTuple xs \<Rightarrow>
           (case (xs ! 1, xs ! 2) of
              (VDict creation, VDict decay) \<Rightarrow>
                let keys = map fst creation in
                and_then (get_state so (xs ! 0) 0) (\<lambda>target.
                  let diff_state = ''D['' @ target @ '', t] == '' in
                  and_then (equation_loop so order0 creation decay [] keys) (\<lambda>equation_string.
                  and_then (format_equation_string equation_string) (\<lambda>formatted.
                    Inr (diff_state @ formatted))))
            | _ \<Rightarrow> Inl TypeError)
       | _ \<Rightarrow> Inl TypeError)"

section \<open>The specification's vocabulary\<close>

text \<open>A well-formed state is a tuple whose entries are tuples of two items.\<close>

definition is_pair :: "pyval \<Rightarrow> bool" where
  "is_pair e = (case e of VTuple xs \<Rightarrow> length xs = 2 | _ \<Rightarrow> False)"

definition well_formed :: "pyval \<Rightarrow> bool" where
  "well_formed state = (case state of VTuple es \<Rightarrow> list_all is_pair es | _ \<Rightarrow> False)"

text \<open>Upper-casing as a table of letters: every lower-case letter is replaced by its
  capital, the sharp s by \<open>SS\<close>.\<close>

definition lower_letters :: string where
  "lower_letters = ''abcdefghijklmnopqrstuvwxyz'' @
     [CHR 0xE0, CHR 0xE1, CHR 0xE2, CHR 0xE3, CHR 0xE4, CHR 0xE5, CHR 0xE6, CHR 0xE7,
      CHR 0xE8, CHR 0xE9, CHR 0xEA, CHR 0xEB, CHR 0xEC, CHR 0xED, CHR 0xEE, CHR 0xEF,
      CHR 0xF0, CHR 0xF1, CHR 0xF2, CHR 0xF3, CHR 0xF4, CHR 0xF5, CHR 0xF6,
      CHR 0xF8, CHR 0xF9, CHR 0xFA, CHR 0xFB, CHR 0xFC, CHR 0xFD, CHR 0xFE]"

definition capital_letters :: string where
  "capital_letters = ''ABCDEFGHIJKLMNOPQRSTUVWXYZ'' @
     [CHR 0xC0, CHR 0xC1, CHR 0xC2, CHR 0xC3, CHR 0xC4, CHR 0xC5, CHR 0xC6, CHR 0xC7,
      CHR 0xC8, CHR 0xC9, CHR 0xCA, CHR 0xCB, CHR 0xCC, CHR 0xCD, CHR 0xCE, CHR 0xCF,
      CHR 0xD0, CHR 0xD1, CHR 0xD2, CHR 0xD3, CHR 0xD4, CHR 0xD5, CHR 0xD6,
      CHR 0xD8, CHR 0xD9, CHR 0xDA, CHR 0xDB, CHR 0xDC, CHR 0xDD, CHR 0xDE]"

definition spec_upper_char :: "char \<Rightarrow> string" where
  "spec_upper_char c =
     (case map_of (zip lower_letters capital_letters) c of
        Some u \<Rightarrow> [u]
      | None \<Rightarrow> (if c = CHR 0xDF then ''SS'' else [c]))"

definition spec_upper :: "string \<Rightarrow> string" where
  "spec_upper s = concat (map spec_upper_char s)"

text \<open>The rate as the specification words it: every dot removed, the rest in upper case.\<close>

definition spec_render_rate :: "string \<Rightarrow> string" where
  "spec_render_rate r = spec_upper (filter (\<lambda>ch. ch \<noteq> CHR ''.'') r)"

text \<open>The exact rendering as the specification words it: \<open>P\<close>, then label and index of
  every entry in the given order, then \<open>[t]\<close>.\<close>

fun spec_entry :: "pyval \<Rightarrow> string" where
  "spec_entry (VTuple [label, index]) = py_str label @ py_str index"
| "spec_entry _ = []"

definition spec_render_exact :: "pyval list \<Rightarrow> string" where
  "spec_render_exact es = ''P'' @ concat (map spec_entry es) @ ''[t]''"

text \<open>The windows of size \<open>k\<close>, left to right, and the pairs \<open>(i, j)\<close> below \<open>m\<close> in scan
  order: \<open>i\<close> ascending, and for each \<open>i\<close> every \<open>j\<close> above it, ascending.\<close>

definition windows :: "'a list \<Rightarrow> nat \<Rightarrow> 'a list list" where
  "windows xs k = map (\<lambda>i. take k (drop i xs)) [0..<length xs - k + 1]"

definition scan_pairs :: "nat \<Rightarrow> (nat \<times> nat) list" where
  "scan_pairs m = concat (map (\<lambda>i. map (Pair i) [Suc i..<m]) [0..<m])"

text \<open>The entries of \<open>a\<close> that are also in \<open>b\<close>, each once.\<close>

definition common :: "pyval list \<Rightarrow> pyval list \<Rightarrow> pyval list" where
  "common a b = filter (\<lambda>x. x \<in> set b) (remdups a)"

text \<open>The denominator as the specification words it: for every pair of windows in scan
  order, the entries they share, when there are any.\<close>

definition denominator_factors ::
  "(pyval list \<Rightarrow> pyval list) \<Rightarrow> pyval list list \<Rightarrow> pyval list list" where
  "denominator_factors so w =
     filter (\<lambda>d. d \<noteq> []) (map (\<lambda>(i, j). so (common (w ! i) (w ! j))) (scan_pairs (length w)))"

text \<open>The mean-field rendering as the specification words it: the windows rendered
  exactly and joined by a space; when the denominator is not empty, \<open>/(\<close>, its factors
  rendered exactly and joined by a space, and \<open>)\<close>.\<close>

definition spec_render_mean_field ::
  "(pyval list \<Rightarrow> pyval list) \<Rightarrow> pyval list \<Rightarrow> nat \<Rightarrow> string" where
  "spec_render_mean_field so es k =
     (let numerator = windows es k;
          denominator = denominator_factors so numerator
      in py_join '' '' (map spec_render_exact numerator)
         @ (if denominator = [] then []
            else ''/('' @ py_join '' '' (map spec_render_exact denominator) @ '')''))"

text \<open>A state as the data model describes it: every entry is a label, which is text, and
  an index, which is an integer or text.\<close>

fun is_site_entry :: "pyval \<Rightarrow> bool" where
  "is_site_entry (VTuple [VStr l, VInt i]) = True"
| "is_site_entry (VTuple [VStr l, VStr i]) = True"
| "is_site_entry _ = False"

text \<open>A weighted state: a pair of a well-formed state (with hashable entries) and an
  integer.\<close>

fun weighted_state :: "pyval \<Rightarrow> bool" where
  "weighted_state (VTuple [s, VInt m]) = (well_formed s \<and> hashable s)"
| "weighted_state _ = False"

text \<open>A text that starts with a sign.\<close>

definition signed :: "string \<Rightarrow> bool" where
  "signed r = (case r of [] \<Rightarrow> False | c # _ \<Rightarrow> c = CHR ''+'' \<or> c = CHR ''-'')"

text \<open>The target state of the two examples, \<open>(("a", 0), ("b", 1))\<close>.\<close>

abbreviation state_a0b1 :: pyval where
  "state_a0b1 \<equiv> VTuple [VTuple [VStr ''a'', VInt 0], VTuple [VStr ''b'', VInt 1]]"

text \<open>The entries of a state of four sites, \<open>(("a", 0), ("b", 1), ("c", 2), ("d", 3))\<close>.\<close>

abbreviation entries_abcd :: "pyval list" where
  "entries_abcd \<equiv>
     [VTuple [VStr ''a'', VInt 0], VTuple [VStr ''b'', VInt 1],
      VTuple [VStr ''c'', VInt 2], VTuple [VStr ''d'', VInt 3]]"

text \<open>The same with integers as labels, \<open>((1, 0), (2, 1), (3, 2), (4, 3))\<close>.\<close>

abbreviation entries_1234 :: "pyval list" where
  "entries_1234 \<equiv>
     [VTuple [VInt 1, VInt 0], VTuple [VInt 2, VInt 1],
      VTuple [VInt 3, VInt 2], VTuple [VInt 4, VInt 3]]"

section \<open>Facts about the primitives\<close>

lemma and_then_Inr [simp]: "and_then (Inr x) f = f x"
  by (simp add: and_then_def)

lemma and_then_Inl [simp]: "and_then (Inl e) f = Inl e"
  by (simp add: and_then_def)

lemma py_join_nil: "py_join [] xs = concat xs"
  by (induction "[]::string" xs rule: py_join.induct) simp_all

lemma py_split_not_Nil: "py_split c s \<noteq> []"
  by (induction s) (auto split: list.splits)

lemma concat_py_split: "concat (py_split c s) = filter (\<lambda>x. x \<noteq> c) s"
  by (induction s) (auto split: list.splits)

lemma upper_char_table: "upper_char c = spec_upper_char c"
proof -
  have "\<forall>c::char. upper_char c = spec_upper_char c"
    by code_simp
  then show ?thesis
    by simp
qed

lemma py_upper_table: "py_upper s = spec_upper s"
proof -
  have "upper_char = spec_upper_char"
    by (rule ext) (rule upper_char_table)
  then show ?thesis
    by (simp add: py_upper_def spec_upper_def)
qed

lemma map_err_Inr:
  "(\<And>x. x \<in> set xs \<Longrightarrow> f x = Inr (g x)) \<Longrightarrow> map_err f xs = Inr (map g xs)"
  by (induction xs) simp_all

lemma validate_substates_iff: "validate_substates es = Inr () \<longleftrightarrow> list_all is_pair es"
  by (induction es) (auto simp: is_pair_def split: pyval.splits)

lemma validate_substates_ok: "list_all is_pair es \<Longrightarrow> validate_substates es = Inr ()"
  by (simp add: validate_substates_iff)

lemma validate_substates_error: "validate_substates es = Inl e \<Longrightarrow> e = TypeError"
  by (induction es) (auto split: pyval.splits if_splits)

lemma is_pairE: "is_pair e \<Longrightarrow> \<exists>a b. e = VTuple [a, b]"
  by (cases e) (auto simp: is_pair_def length_Suc_conv numeral_2_eq_2)

lemma format_entry_pair: "is_pair e \<Longrightarrow> format_entry e = Inr (spec_entry e)"
  by (auto dest!: is_pairE simp: format_entry_def py_getitem_def)

lemma get_state_string_exact:
  "list_all is_pair es \<Longrightarrow> get_state_string es = Inr (spec_render_exact es)"
  by (simp add: get_state_string_def spec_render_exact_def py_join_nil list_all_iff
      map_err_Inr [where g = spec_entry] format_entry_pair)

lemma get_state_no_reduction:
  "list_all is_pair es \<Longrightarrow> k = 0 \<or> int (length es) \<le> k \<Longrightarrow>
     get_state so (VTuple es) k = Inr (spec_render_exact es)"
  by (auto simp: get_state_def validate_state_def validate_substates_ok
      get_state_string_exact)

lemma validate_state0_error: "validate_state0 st = Inl e \<Longrightarrow> e = TypeError"
  by (cases st) (auto simp: validate_state0_def dest: validate_substates_error)

lemma validate_state0_ok: "well_formed st \<Longrightarrow> validate_state0 st = Inr ()"
  by (cases st) (auto simp: validate_state0_def well_formed_def validate_substates_ok)

section \<open>Facts about the mean-field loops\<close>

lemma numerator_loop_takeWhile:
  "numerator_loop st k acc idxs =
     acc @ map (\<lambda>i. py_slice st i (i + k)) (takeWhile (\<lambda>i. i + k \<le> length st) idxs)"
  by (induction idxs arbitrary: acc) auto

lemma takeWhile_less_upt: "m \<le> n \<Longrightarrow> takeWhile (\<lambda>i. i < m) [0..<n] = [0..<m]"
proof -
  assume le: "m \<le> n"
  have split: "[0..<n] = [0..<m] @ [m..<n]"
    using le by (metis le_add_diff_inverse upt_add_eq_append zero_le)
  have rest: "takeWhile (\<lambda>i. i < m) [m..<n] = []"
    by (cases "m < n") (simp_all add: upt_conv_Cons)
  have "takeWhile (\<lambda>i. i < m) ([0..<m] @ [m..<n]) = [0..<m] @ takeWhile (\<lambda>i. i < m) [m..<n]"
    by (rule takeWhile_append2) simp
  with split rest show ?thesis
    by simp
qed

lemma get_numerator_windows:
  assumes "0 < k" "k \<le> length st"
  shows "get_numerator st k = windows st k"
proof -
  have "(\<lambda>i. i + k \<le> length st) = (\<lambda>i. i < length st - k + 1)"
    using assms by auto
  moreover have "length st - k + 1 \<le> length st"
    using assms by simp
  ultimately show ?thesis
    by (simp add: get_numerator_def numerator_loop_takeWhile windows_def py_slice_def
        takeWhile_less_upt)
qed

lemma intersecting_states_common:
  "list_all hashable a \<Longrightarrow> list_all hashable b \<Longrightarrow>
     intersecting_states so a b = Inr (so (common a b))"
  by (simp add: intersecting_states_def py_set_def common_def)

lemma denominator_inner_closed:
  assumes "list_all hashable a" "\<forall>(j, b) \<in> set jbs. list_all hashable b"
  shows "denominator_inner so i a acc jbs =
     Inr (acc @ filter (\<lambda>d. d \<noteq> [])
            (map (\<lambda>(j, b). so (common a b)) (filter (\<lambda>(j, b). i < j) jbs)))"
  using assms
  by (induction jbs arbitrary: acc) (auto simp: intersecting_states_common)

lemma denominator_outer_closed:
  assumes "\<forall>(j, b) \<in> set (enumerate 0 nums). list_all hashable b"
    "\<forall>(i, a) \<in> set ibs. list_all hashable a"
  shows "denominator_outer so nums acc ibs =
     Inr (acc @ concat (map (\<lambda>(i, a). filter (\<lambda>d. d \<noteq> [])
            (map (\<lambda>(j, b). so (common a b)) (filter (\<lambda>(j, b). i < j) (enumerate 0 nums)))) ibs))"
  using assms
  by (induction ibs arbitrary: acc) (auto simp: denominator_inner_closed)

lemma enumerate_nth: "enumerate 0 w = map (\<lambda>i. (i, w ! i)) [0..<length w]"
  by (rule nth_equalityI) (simp_all add: nth_enumerate_eq)

lemma filter_greater_upt: "i < m \<Longrightarrow> filter (\<lambda>j. i < j) [0..<m] = [Suc i..<m]"
proof -
  assume "i < m"
  then have split: "[0..<m] = [0..<Suc i] @ [Suc i..<m]"
    by (metis Suc_leI le_add_diff_inverse upt_add_eq_append zero_le)
  have low: "filter (\<lambda>j. i < j) [0..<Suc i] = []"
    by (simp add: filter_empty_conv del: upt_Suc)
  have high: "filter (\<lambda>j. i < j) [Suc i..<m] = [Suc i..<m]"
    by (simp add: filter_id_conv)
  have "filter (\<lambda>j. i < j) ([0..<Suc i] @ [Suc i..<m]) = [Suc i..<m]"
    unfolding filter_append low high by simp
  with split show ?thesis
    by simp
qed

lemma scan_form:
  "concat (map (\<lambda>(i, a). filter (\<lambda>d. d \<noteq> [])
       (map (\<lambda>(j, b). so (common a b)) (filter (\<lambda>(j, b). i < j) (enumerate 0 w))))
     (enumerate 0 w)) = denominator_factors so w"
proof -
  let ?row = "\<lambda>i a. filter (\<lambda>d. d \<noteq> [])
       (map (\<lambda>(j, b). so (common a b)) (filter (\<lambda>(j, b). i < j) (enumerate 0 w)))"
  have inner: "?row i (w ! i) =
      filter (\<lambda>d. d \<noteq> []) (map (\<lambda>j. so (common (w ! i) (w ! j))) [Suc i..<length w])"
    if "i < length w" for i
    using that by (simp add: enumerate_nth filter_map comp_def filter_greater_upt)
  have "map (\<lambda>(i, a). ?row i a) (enumerate 0 w) = map (\<lambda>i. ?row i (w ! i)) [0..<length w]"
    by (simp add: enumerate_nth [of w] comp_def)
  also have "\<dots> = map (\<lambda>i. filter (\<lambda>d. d \<noteq> [])
      (map (\<lambda>j. so (common (w ! i) (w ! j))) [Suc i..<length w])) [0..<length w]"
    by (rule map_cong [OF refl]) (simp add: inner)
  finally show ?thesis
    unfolding denominator_factors_def scan_pairs_def
    by (simp add: filter_concat map_concat comp_def)
qed

lemma get_denominator_closed:
  assumes "\<forall>w \<in> set nums. list_all hashable w"
  shows "get_denominator so nums = Inr (denominator_factors so nums)"
proof -
  have "\<forall>(j, b) \<in> set (enumerate 0 nums). list_all hashable b"
    using assms by (auto simp: in_set_enumerate_eq)
  then show ?thesis
    unfolding get_denominator_def
    by (simp add: denominator_outer_closed scan_form)
qed

lemma scan_pairs_mem: "(i, j) \<in> set (scan_pairs m) \<longleftrightarrow> i < j \<and> j < m"
  by (fastforce simp: scan_pairs_def)

lemma length_scan_pairs: "length (scan_pairs m) = m choose 2"
proof -
  have "length (scan_pairs m) = (\<Sum>i\<leftarrow>[0..<m]. m - Suc i)"
    by (simp add: scan_pairs_def length_concat comp_def)
  also have "\<dots> = (\<Sum>i<m. m - Suc i)"
    by (simp add: interv_sum_list_conv_sum_set_nat atLeast0LessThan)
  also have "\<dots> = (\<Sum>i<m. i)"
    by (rule sum.nat_diff_reindex)
  also have "\<dots> = m choose 2"
    by (induction m) (simp_all add: numeral_2_eq_2)
  finally show ?thesis .
qed

lemma length_windows: "length (windows es k) = length es - k + 1"
  by (simp add: windows_def)

lemma set_windows: "w \<in> set (windows es k) \<Longrightarrow> set w \<subseteq> set es"
  by (auto simp: windows_def dest: in_set_takeD in_set_dropD)

lemma distinct_common: "distinct (common a b)"
  by (simp add: common_def)

lemma set_common: "set (common a b) = set a \<inter> set b"
  by (auto simp: common_def)

lemma set_order_common:
  "set_order so \<Longrightarrow> set (so (common a b)) = set a \<inter> set b \<and> distinct (so (common a b))"
  using distinct_common [of a b] set_common [of a b] by (simp add: set_order_def)

lemma length_denominator_factors: "length (denominator_factors so w) \<le> length w choose 2"
proof -
  have "length (denominator_factors so w) \<le> length (scan_pairs (length w))"
    unfolding denominator_factors_def
    by (rule order_trans [OF length_filter_le]) simp
  then show ?thesis
    by (simp add: length_scan_pairs)
qed

lemma denominator_factors_mem:
  assumes "d \<in> set (denominator_factors so w)"
  shows "d \<noteq> [] \<and> (\<exists>i j. i < j \<and> j < length w \<and> d = so (common (w ! i) (w ! j)))"
proof -
  from assms obtain i j where "(i, j) \<in> set (scan_pairs (length w))"
    and "d = so (common (w ! i) (w ! j))" and "d \<noteq> []"
    by (auto simp: denominator_factors_def)
  then show ?thesis
    by (auto simp: scan_pairs_mem)
qed


lemma get_state_mean_field:
  assumes wf: "well_formed (VTuple es)" and k: "0 < k" "k < length es"
    and hash: "list_all hashable es" and so: "set_order so"
  shows "get_state so (VTuple es) (int k) = Inr (spec_render_mean_field so es k)"
proof -
  let ?num = "windows es k"
  let ?den = "denominator_factors so ?num"
  have pairs: "list_all is_pair es"
    using wf by (simp add: well_formed_def)
  have num: "get_numerator es k = ?num"
    using k by (simp add: get_numerator_windows)
  have win_sub: "set w \<subseteq> set es" if "w \<in> set ?num" for w
    using that by (rule set_windows)
  have "\<forall>w \<in> set ?num. list_all hashable w"
    using hash win_sub by (auto simp: list_all_iff)
  then have den: "get_denominator so ?num = Inr ?den"
    by (rule get_denominator_closed)
  have num_str: "map_err get_state_string ?num = Inr (map spec_render_exact ?num)"
    using pairs win_sub
    by (intro map_err_Inr get_state_string_exact) (auto simp: list_all_iff)
  have den_sub: "set d \<subseteq> set es" if "d \<in> set ?den" for d
  proof -
    from denominator_factors_mem [OF that] obtain i j
      where ij: "i < j" "j < length ?num" and d: "d = so (common (?num ! i) (?num ! j))"
      by blast
    have "set d \<subseteq> set (?num ! i)"
      using set_order_common [OF so, of "?num ! i" "?num ! j"] d by simp
    moreover have "?num ! i \<in> set ?num"
      using ij by simp
    ultimately show ?thesis
      using win_sub by blast
  qed
  have den_str: "map_err get_state_string ?den = Inr (map spec_render_exact ?den)"
    using pairs den_sub
    by (intro map_err_Inr get_state_string_exact) (auto simp: list_all_iff)
  have valid: "validate_state (VTuple es) (int k) = Inr ()"
    using pairs by (simp add: validate_state_def validate_substates_ok)
  show ?thesis
    using k
    by (simp add: get_state_def valid num den num_str den_str spec_render_mean_field_def
        Let_def)
qed

lemma set_order_rev: "set_order rev"
  by (simp add: set_order_def)

lemma get_state_total:
  assumes "well_formed s" and "0 \<le> k" and "hashable s" and "set_order so"
  shows "\<exists>t. get_state so s k = Inr t"
proof -
  from assms(1) obtain es where s: "s = VTuple es"
    by (cases s) (simp_all add: well_formed_def)
  show ?thesis
  proof (cases "k = 0 \<or> int (length es) \<le> k")
    case True
    then show ?thesis
      using assms(1) get_state_no_reduction [of es k so] by (simp add: s well_formed_def)
  next
    case False
    then have "0 < nat k" "nat k < length es" "int (nat k) = k"
      using assms(2) by auto
    then show ?thesis
      using get_state_mean_field [of es "nat k" so] assms by (simp add: s)
  qed
qed

text \<open>The denominator factors come in scan order, and each lists the entries shared by
  its two windows, each once, as the enumeration \<open>so\<close> orders them.\<close>

lemma mean_field_scan_order:
  assumes "well_formed (VTuple es)" and "0 < k" and "k < length es"
    and "list_all hashable es" and "set_order so"
  shows "get_denominator so (get_numerator es k) = Inr (denominator_factors so (windows es k))
    \<and> (\<forall>d \<in> set (denominator_factors so (windows es k)). distinct d)
    \<and> get_state so (VTuple es) (int k) = Inr (spec_render_mean_field so es k)"
proof -
  let ?num = "windows es k"
  have num: "get_numerator es k = ?num"
    using assms by (simp add: get_numerator_windows)
  have "\<forall>w \<in> set ?num. list_all hashable w"
    using assms(4) set_windows [of _ es k] by (auto simp: list_all_iff)
  then have den: "get_denominator so ?num = Inr (denominator_factors so ?num)"
    by (rule get_denominator_closed)
  have dist: "distinct d" if "d \<in> set (denominator_factors so ?num)" for d
    using denominator_factors_mem [OF that] set_order_common [OF assms(5)] by auto
  show ?thesis
    using num den dist get_state_mean_field [OF assms] by simp
qed

section \<open>Facts about the clauses\<close>

lemma prefactor_loop_takeWhile:
  "prefactor_loop j tmp s =
     (j + length (takeWhile py_isnumeric s), tmp @ takeWhile py_isnumeric s)"
  by (induction s arbitrary: j tmp) auto

lemma digit_char_numeric: "d < 10 \<Longrightarrow> py_isnumeric (digit_char d)"
proof -
  assume d: "d < 10"
  have "''0123456789abcdef'' = ''0123456789'' @ ''abcdef''"
    by simp
  then have "digit_char d = ''0123456789'' ! d"
    using d unfolding digit_char_def by (simp only: nth_append) simp
  moreover have "''0123456789'' ! d \<in> set ''0123456789''"
    using d by (intro nth_mem) simp
  ultimately show ?thesis
    unfolding py_isnumeric_def by (metis UnI1 set_append)
qed

lemma string_of_nat_numeric: "\<forall>c \<in> set (string_of_nat n). py_isnumeric c"
proof (induction n rule: string_of_nat.induct)
  case (1 n)
  show ?case
  proof (cases "n < 10")
    case True
    then show ?thesis
      by (subst string_of_nat.simps) (simp add: digit_char_numeric)
  next
    case False
    then show ?thesis
      using "1.IH" by (subst string_of_nat.simps) (simp add: digit_char_numeric)
  qed
qed

lemma get_prefactor_digits:
  assumes "\<forall>c \<in> set ds. py_isnumeric c"
  shows "get_prefactor (ds @ CHR ''P'' # t) = (ds, CHR ''P'' # t)"
proof -
  have "takeWhile py_isnumeric (ds @ CHR ''P'' # t) = ds @ takeWhile py_isnumeric (CHR ''P'' # t)"
    using assms by (intro takeWhile_append2) simp
  moreover have "\<not> py_isnumeric (CHR ''P'')"
    by (simp add: py_isnumeric_def)
  ultimately show ?thesis
    by (simp add: get_prefactor_def prefactor_loop_takeWhile)
qed

lemma map_err_Cons_Inr:
  "map_err f (x # xs) = Inr ys \<Longrightarrow> \<exists>y ys'. ys = y # ys' \<and> f x = Inr y \<and> map_err f xs = Inr ys'"
  by (auto simp: and_then_def split: sum.splits)

lemma get_state_string_P: "get_state_string es = Inr t \<Longrightarrow> \<exists>t'. t = CHR ''P'' # t'"
  by (auto simp: get_state_string_def and_then_def split: sum.splits)

lemma py_join_Cons: "\<exists>r. py_join sep (x # xs) = x @ r"
  by (cases xs) simp_all

lemma get_state_P:
  assumes "get_state so s k = Inr t"
  shows "\<exists>t'. t = CHR ''P'' # t'"
proof -
  from assms obtain es where s: "s = VTuple es"
    by (cases s) (auto simp: get_state_def validate_state_def and_then_def split: sum.splits if_splits)
  from assms have valid: "validate_state s k = Inr ()"
    by (auto simp: get_state_def and_then_def split: sum.splits)
  then have k0: "0 \<le> k"
    by (auto simp: validate_state_def split: if_splits)
  show ?thesis
  proof (cases "k = 0 \<or> int (length es) \<le> k")
    case True
    then show ?thesis
      using assms valid get_state_string_P by (auto simp: get_state_def s)
  next
    case False
    then have k: "0 < nat k" "nat k \<le> length es"
      using k0 by auto
    then have "get_numerator es (nat k) = windows es (nat k)"
      by (rule get_numerator_windows)
    moreover have "windows es (nat k) \<noteq> []"
      by (simp add: windows_def)
    ultimately have "get_numerator es (nat k) \<noteq> []"
      by simp
    then obtain w ws where num: "get_numerator es (nat k) = w # ws"
      by (auto simp: neq_Nil_conv)
    from assms False valid obtain strs where
      strs: "map_err get_state_string (w # ws) = Inr strs"
      and t: "\<exists>r. t = py_join '' '' strs @ r"
      by (auto simp: get_state_def s num Let_def and_then_def split: sum.splits if_splits)
    from map_err_Cons_Inr [OF strs] obtain y ys where
      "strs = y # ys" "get_state_string w = Inr y"
      by blast
    then show ?thesis
      using t get_state_string_P [of w y] py_join_Cons [of "'' ''" y ys] by auto
  qed
qed

lemma map_of_constant:
  "\<forall>(k, v) \<in> set kvs. v = c \<Longrightarrow> key \<in> set (map fst kvs) \<Longrightarrow> map_of kvs key = Some c"
  by (induction kvs) auto

lemma equation_loop_empty_lists:
  assumes "\<forall>(k, v) \<in> set creation. v = VList []" and "\<forall>(k, v) \<in> set decay. v = VList []"
    and "set keys \<subseteq> set (map fst creation)" and "set keys \<subseteq> set (map fst decay)"
  shows "equation_loop so k creation decay acc keys = Inr acc"
  using assms(3,4)
proof (induction keys)
  case Nil
  show ?case by simp
next
  case (Cons key keys)
  have "map_of creation key = Some (VList [])" "map_of decay key = Some (VList [])"
    using Cons.prems assms(1,2) by (simp_all add: map_of_constant)
  then show ?case
    using Cons by (simp add: py_dict_get_def py_iter_def)
qed

lemma get_equation_all_lists_empty:
  assumes "well_formed st" and "set (map fst creation) = set (map fst decay)"
    and "\<forall>(k, v) \<in> set creation. v = VList []" and "\<forall>(k, v) \<in> set decay. v = VList []"
  shows "validate_equation (VTuple [st, VDict creation, VDict decay]) = Inr ()
    \<and> get_equation so (VTuple [st, VDict creation, VDict decay]) k = Inl IndexError"
proof -
  have valid: "validate_equation (VTuple [st, VDict creation, VDict decay]) = Inr ()"
    using assms(1,2) by (simp add: validate_equation_def validate_state0_ok)
  from assms(1) obtain es where st: "st = VTuple es" and pairs: "list_all is_pair es"
    by (cases st) (simp_all add: well_formed_def)
  have target: "get_state so st 0 = Inr (spec_render_exact es)"
    using pairs by (simp add: st get_state_no_reduction)
  have loop: "equation_loop so k creation decay [] (map fst creation) = Inr []"
    using assms(2,3,4) by (intro equation_loop_empty_lists) simp_all
  show ?thesis
    using valid target loop
    by (simp add: get_equation_def format_equation_string_def)
qed

section \<open>Facts about the assembled equation\<close>

lemma site_entries_well_formed:
  "list_all is_site_entry es \<Longrightarrow> well_formed (VTuple es) \<and> hashable (VTuple es)"
proof (induction es)
  case Nil
  show ?case by (simp add: well_formed_def)
next
  case (Cons e es)
  from Cons.prems have "is_site_entry e"
    by simp
  then have "is_pair e \<and> hashable e"
    by (rule is_site_entry.elims(2)) (simp_all add: is_pair_def)
  then show ?case
    using Cons by (simp add: well_formed_def)
qed

lemma weighted_stateE:
  "weighted_state w \<Longrightarrow> \<exists>s m. w = VTuple [s, VInt m] \<and> well_formed s \<and> hashable s"
  by (erule weighted_state.elims(2)) simp

lemma format_state_multiplicity_total:
  assumes "weighted_state w" and "0 \<le> k" and "set_order so"
  shows "\<exists>x. format_state_multiplicity so k w = Inr x"
proof -
  from weighted_stateE [OF assms(1)] obtain s m
    where w: "w = VTuple [s, VInt m]" and s: "well_formed s" "hashable s"
    by blast
  from get_state_total [OF s(1) assms(2) s(2) assms(3)] obtain t
    where "get_state so s k = Inr t"
    by blast
  then show ?thesis
    by (simp add: w format_state_multiplicity_def py_len_def py_getitem_def py_gt_def)
qed

lemma map_err_total:
  "(\<And>x. x \<in> set xs \<Longrightarrow> \<exists>y. f x = Inr y) \<Longrightarrow>
     \<exists>ys. map_err f xs = Inr ys \<and> length ys = length xs"
proof (induction xs)
  case Nil
  show ?case by simp
next
  case (Cons x xs)
  from Cons.prems obtain y where "f x = Inr y"
    by auto
  moreover from Cons obtain ys where "map_err f xs = Inr ys" "length ys = length xs"
    by auto
  ultimately show ?case
    by simp
qed

lemma format_create_decay_single_signed:
  "get_rate key = Inr rate \<Longrightarrow>
     \<exists>r. format_create_decay_single key xs dec = Inr r \<and> signed r"
  by (auto simp: format_create_decay_single_def signed_def Let_def split: prod.splits)

lemma format_create_decay_signed:
  "get_rate key = Inr rate \<Longrightarrow> \<exists>r. format_create_decay key xs ys = Inr r \<and> signed r"
  by (simp add: format_create_decay_def signed_def)

lemma is_str_get_rate: "is_str key \<Longrightarrow> \<exists>rate. get_rate key = Inr rate"
  by (cases key) (simp_all add: is_str_def get_rate_def validate_rate_def)

lemma signed_append: "signed r \<Longrightarrow> signed (r @ r')"
  by (cases r) (simp_all add: signed_def)

lemma equation_loop_returns:
  assumes keys: "\<forall>key \<in> set keys. is_str key \<and>
      (\<exists>cs ds. map_of c key = Some (VList cs) \<and> map_of d key = Some (VList ds)
         \<and> list_all weighted_state cs \<and> list_all weighted_state ds)"
    and k: "0 \<le> k" and so: "set_order so"
  shows "\<exists>r. equation_loop so k c d acc keys = Inr (acc @ r) \<and> (r = [] \<or> signed r)
    \<and> ((\<exists>key \<in> set keys. \<exists>cs ds. map_of c key = Some (VList cs)
           \<and> map_of d key = Some (VList ds) \<and> (cs \<noteq> [] \<or> ds \<noteq> [])) \<longrightarrow> r \<noteq> [])"
  using keys
proof (induction keys arbitrary: acc)
  case Nil
  show ?case by simp
next
  case (Cons key keys)
  from Cons.prems obtain cs ds where str: "is_str key"
    and look: "map_of c key = Some (VList cs)" "map_of d key = Some (VList ds)"
    and ws: "list_all weighted_state cs" "list_all weighted_state ds"
    by auto
  from is_str_get_rate [OF str] obtain rate where rate: "get_rate key = Inr rate"
    by blast
  have "\<exists>xs. map_err (format_state_multiplicity so k) cs = Inr xs \<and> length xs = length cs"
    using ws(1) by (intro map_err_total format_state_multiplicity_total [OF _ k so])
      (simp add: list_all_iff)
  then obtain xs where xs: "map_err (format_state_multiplicity so k) cs = Inr xs"
    "length xs = length cs"
    by blast
  have "\<exists>ys. map_err (format_state_multiplicity so k) ds = Inr ys \<and> length ys = length ds"
    using ws(2) by (intro map_err_total format_state_multiplicity_total [OF _ k so])
      (simp add: list_all_iff)
  then obtain ys where ys: "map_err (format_state_multiplicity so k) ds = Inr ys"
    "length ys = length ds"
    by blast
  have "\<exists>clause. equation_loop so k c d acc (key # keys)
        = equation_loop so k c d (acc @ clause) keys
      \<and> (if cs = [] \<and> ds = [] then clause = [] else signed clause)"
  proof -
    consider (decay) "ds \<noteq> []" "cs = []" | (create) "ds = []" "cs \<noteq> []"
      | (both) "ds \<noteq> []" "cs \<noteq> []" | (none) "ds = []" "cs = []"
      by blast
    then show ?thesis
    proof cases
      case decay
      from format_create_decay_single_signed [OF rate, of ys True] obtain r
        where "format_create_decay_single key ys True = Inr r" "signed r"
        by blast
      then show ?thesis
        using decay look xs ys by (auto simp: py_dict_get_def py_iter_def)
    next
      case create
      from format_create_decay_single_signed [OF rate, of xs False] obtain r
        where "format_create_decay_single key xs False = Inr r" "signed r"
        by blast
      then show ?thesis
        using create look xs ys by (auto simp: py_dict_get_def py_iter_def)
    next
      case both
      from format_create_decay_signed [OF rate, of xs ys] obtain r
        where "format_create_decay key xs ys = Inr r" "signed r"
        by blast
      then show ?thesis
        using both look xs ys by (auto simp: py_dict_get_def py_iter_def)
    next
      case none
      then show ?thesis
        using look xs ys by (auto simp: py_dict_get_def py_iter_def intro: exI [of _ "[]"])
    qed
  qed
  then obtain clause where step: "equation_loop so k c d acc (key # keys)
        = equation_loop so k c d (acc @ clause) keys"
    and clause: "if cs = [] \<and> ds = [] then clause = [] else signed clause"
    by blast
  from Cons.IH [of "acc @ clause"] Cons.prems obtain r
    where r: "equation_loop so k c d (acc @ clause) keys = Inr ((acc @ clause) @ r)"
      "r = [] \<or> signed r"
      "(\<exists>key \<in> set keys. \<exists>cs ds. map_of c key = Some (VList cs)
           \<and> map_of d key = Some (VList ds) \<and> (cs \<noteq> [] \<or> ds \<noteq> [])) \<longrightarrow> r \<noteq> []"
    by auto
  have "equation_loop so k c d acc (key # keys) = Inr (acc @ (clause @ r))"
    using step r(1) by simp
  moreover have "clause @ r = [] \<or> signed (clause @ r)"
    using clause r(2) by (auto simp: signed_append split: if_splits)
  moreover have "(\<exists>key' \<in> set (key # keys). \<exists>cs ds. map_of c key' = Some (VList cs)
           \<and> map_of d key' = Some (VList ds) \<and> (cs \<noteq> [] \<or> ds \<noteq> [])) \<longrightarrow> clause @ r \<noteq> []"
    using clause r(3) look by (auto simp: signed_def split: if_splits)
  ultimately show ?case
    by blast
qed

lemma format_equation_string_signed:
  assumes "signed s"
  shows "\<exists>t. format_equation_string s = Inr t"
proof -
  from assms obtain c cs where s: "s = c # cs" and c: "c = CHR ''+'' \<or> c = CHR ''-''"
    by (cases s) (auto simp: signed_def)
  have nospace: "\<not> py_isspace c"
    using c by (auto simp: py_isspace_def)
  then have "dropWhile py_isspace s = s"
    by (simp add: s)
  moreover have "dropWhile py_isspace (rev s) \<noteq> []"
    using nospace by (simp add: s dropWhile_eq_Nil_conv)
  ultimately have "py_strip s \<noteq> []"
    by (simp add: py_strip_def)
  then show ?thesis
    by (simp add: format_equation_string_def s Let_def)
qed

lemma get_equation_returns:
  assumes st: "well_formed st" and same: "set (map fst c) = set (map fst d)"
    and k: "0 \<le> k" and so: "set_order so"
    and keys: "\<forall>key \<in> set (map fst c). is_str key \<and>
      (\<exists>cs ds. map_of c key = Some (VList cs) \<and> map_of d key = Some (VList ds)
         \<and> list_all weighted_state cs \<and> list_all weighted_state ds)"
    and some: "\<exists>key \<in> set (map fst c). \<exists>cs ds. map_of c key = Some (VList cs)
           \<and> map_of d key = Some (VList ds) \<and> (cs \<noteq> [] \<or> ds \<noteq> [])"
  shows "\<exists>t. get_equation so (VTuple [st, VDict c, VDict d]) k = Inr t"
proof -
  have valid: "validate_equation (VTuple [st, VDict c, VDict d]) = Inr ()"
    using st same by (simp add: validate_equation_def validate_state0_ok)
  from st obtain es where es: "st = VTuple es" and pairs: "list_all is_pair es"
    by (cases st) (simp_all add: well_formed_def)
  have target: "get_state so st 0 = Inr (spec_render_exact es)"
    using pairs by (simp add: es get_state_no_reduction)
  from equation_loop_returns [OF keys k so, of "[]"] some obtain r
    where loop: "equation_loop so k c d [] (map fst c) = Inr r" and "signed r"
    by auto
  from format_equation_string_signed [OF this(2)] obtain t
    where "format_equation_string r = Inr t"
    by blast
  then show ?thesis
    using valid target loop by (simp add: get_equation_def)
qed

section \<open>The rate renderer: claim C9\<close>

text \<open>
  C9. For a rate that is text, \<open>get_rate\<close> returns the text with every dot removed and
  the rest upper-cased; for a rate that is not text it raises TypeError; and
  \<open>get_rate_value\<close> returns the rendered rate followed by \<open>" = "\<close> and \<open>str\<close> of the
  value (and raises what \<open>get_rate\<close> raises). The text is any text of code points below
  256 whose upper-case form is such a text again (\<open>upper_in_text\<close>); upper-casing is the
  table of letters \<open>spec_upper\<close>, where \<open>get_rate\<close> computes with code points.
\<close>

theorem get_rate_spec:
  "(list_all upper_in_text s \<longrightarrow> get_rate (VStr s) = Inr (spec_render_rate s))
   \<and> (\<not> is_str r \<longrightarrow> get_rate r = Inl TypeError)
   \<and> get_rate_value r v =
       (case get_rate r of Inl e \<Rightarrow> Inl e | Inr t \<Rightarrow> Inr (t @ '' = '' @ py_str v))"
  by (simp add: get_rate_def validate_rate_def is_str_def spec_render_rate_def py_join_nil
      concat_py_split py_upper_table get_rate_value_def and_then_def split: sum.splits)

theorem get_rate_spec_witness:
  "list_all upper_in_text ''k1.a.b'' \<and> get_rate (VStr ''k1.a.b'') = Inr ''K1AB''
   \<and> list_all upper_in_text (''k'' @ [CHR 0xE9, CHR ''.'', CHR 0xDF])
   \<and> get_rate (VStr (''k'' @ [CHR 0xE9, CHR ''.'', CHR 0xDF])) = Inr (''K'' @ [CHR 0xC9] @ ''SS'')
   \<and> \<not> is_str (VInt 3) \<and> get_rate (VInt 3) = Inl TypeError
   \<and> get_rate_value (VStr ''k.o'') (VInt (- 12)) = Inr ''KO = -12''"
proof -
  have ascii: "list_all upper_in_text ''k1.a.b''"
    by (simp add: upper_in_text_def)
  have latin: "list_all upper_in_text (''k'' @ [CHR 0xE9, CHR ''.'', CHR 0xDF])"
    by (simp add: upper_in_text_def)
  have int: "\<not> is_str (VInt 3)"
    by (simp add: is_str_def)
  have rendered: "spec_render_rate ''k1.a.b'' = ''K1AB''"
    "spec_render_rate (''k'' @ [CHR 0xE9, CHR ''.'', CHR 0xDF]) = ''K'' @ [CHR 0xC9] @ ''SS''"
    "spec_render_rate ''k.o'' = ''KO''"
    "py_str (VInt (- 12)) = ''-12''"
    "list_all upper_in_text ''k.o''"
    by code_simp+
  from get_rate_spec [of "''k1.a.b''" "VInt 3" "VInt (- 12)"]
    get_rate_spec [of "''k'' @ [CHR 0xE9, CHR ''.'', CHR 0xDF]" "VInt 3" "VInt (- 12)"]
    get_rate_spec [of "''k.o''" "VStr ''k.o''" "VInt (- 12)"]
    ascii latin int rendered
  show ?thesis
    by simp
qed

section \<open>The exact rendering: claim C7\<close>

text \<open>
  C7. For a well-formed state and an order that is 0 or at least the length of the state,
  \<open>get_state\<close> returns \<open>P\<close>, then label and index of every entry in the given order, then
  \<open>[t]\<close>: no mean-field reduction is applied.
\<close>

theorem get_state_exact:
  "well_formed (VTuple es) \<Longrightarrow> k = 0 \<or> int (length es) \<le> k \<Longrightarrow>
     get_state so (VTuple es) k = Inr (spec_render_exact es)"
  by (simp add: well_formed_def get_state_no_reduction)

theorem get_state_exact_witness:
  "well_formed state_a0b1 \<and> get_state id state_a0b1 0 = Inr ''Pa0b1[t]''
   \<and> get_state id state_a0b1 5 = Inr ''Pa0b1[t]''"
  using get_state_exact [of "[VTuple [VStr ''a'', VInt 0], VTuple [VStr ''b'', VInt 1]]" 0 id]
    get_state_exact [of "[VTuple [VStr ''a'', VInt 0], VTuple [VStr ''b'', VInt 1]]" 5 id]
  by (simp add: well_formed_def is_pair_def spec_render_exact_def py_str_def
      string_of_int_def string_of_nat.simps digit_char_def)

section \<open>The mean-field reduction: claims C5 and C6\<close>

text \<open>
  C5. For a well-formed state of length \<open>n\<close> (with hashable entries, as \<open>set\<close> needs) and
  an order \<open>k\<close> with \<open>0 < k < n\<close>, the numerator of \<open>get_state\<close> is the list of the
  \<open>n - k + 1\<close> windows of size \<open>k\<close>, left to right; the denominator has at most
  \<open>C(n - k + 1, 2)\<close> factors, and every factor is not empty and holds the entries shared
  by two of the windows. The rendering is built from exactly these two lists. A state
  of labels and indices as the data model has them is well-formed and hashable
  (\<open>site_entries_well_formed\<close>).
\<close>

theorem mean_field_bounds:
  assumes "well_formed (VTuple es)" and "0 < k" and "k < length es"
    and "list_all hashable es" and "set_order so"
  shows "get_numerator es k = windows es k
    \<and> length (get_numerator es k) = length es - k + 1
    \<and> (\<exists>ds. get_denominator so (get_numerator es k) = Inr ds
          \<and> length ds \<le> (length es - k + 1) choose 2
          \<and> (\<forall>d \<in> set ds. d \<noteq> [] \<and>
                (\<exists>i j. i < j \<and> j < length es - k + 1
                   \<and> set d = set (windows es k ! i) \<inter> set (windows es k ! j)))
          \<and> get_state so (VTuple es) (int k) =
              Inr (py_join '' '' (map spec_render_exact (get_numerator es k))
                   @ (if ds = [] then []
                      else ''/('' @ py_join '' '' (map spec_render_exact ds) @ '')'')))"
proof -
  let ?num = "windows es k"
  let ?den = "denominator_factors so ?num"
  have num: "get_numerator es k = ?num"
    using assms by (simp add: get_numerator_windows)
  have "\<forall>w \<in> set ?num. list_all hashable w"
    using assms(4) set_windows [of _ es k] by (auto simp: list_all_iff)
  then have den: "get_denominator so ?num = Inr ?den"
    by (rule get_denominator_closed)
  have len: "length ?den \<le> (length es - k + 1) choose 2"
    using length_denominator_factors [of so ?num] by (simp add: length_windows)
  have mem: "d \<noteq> [] \<and> (\<exists>i j. i < j \<and> j < length es - k + 1
      \<and> set d = set (?num ! i) \<inter> set (?num ! j))" if "d \<in> set ?den" for d
  proof -
    from denominator_factors_mem [OF that] obtain i j
      where "d \<noteq> []" "i < j" "j < length ?num" "d = so (common (?num ! i) (?num ! j))"
      by blast
    then show ?thesis
      using set_order_common [OF assms(5), of "?num ! i" "?num ! j"]
      by (auto simp: length_windows)
  qed
  have render: "get_state so (VTuple es) (int k) = Inr (spec_render_mean_field so es k)"
    using assms by (rule get_state_mean_field)
  show ?thesis
    using num den len mem render
    by (simp add: length_windows spec_render_mean_field_def Let_def)
qed

theorem mean_field_bounds_witness:
  "well_formed (VTuple entries_abcd) \<and> list_all hashable entries_abcd \<and> set_order id
   \<and> length (get_numerator entries_abcd 2) = 3
   \<and> (\<exists>ds. get_denominator id (get_numerator entries_abcd 2) = Inr ds \<and> length ds \<le> 3)"
proof -
  have wf: "well_formed (VTuple entries_abcd)"
    by (simp add: well_formed_def is_pair_def)
  have hash: "list_all hashable entries_abcd"
    by simp
  have so: "set_order id"
    by (simp add: set_order_def)
  have three: "Suc (Suc (Suc 0)) choose 2 = 3"
    by (simp add: choose_two)
  from mean_field_bounds [OF wf _ _ hash so, of 2] wf hash so three show ?thesis
    by auto
qed

text \<open>
  C6. The claim is that the rendering is order-stable: the denominator factors come in
  scan order, and inside each factor the shared entries are rendered in the order they
  have in the original state. The first half holds (\<open>mean_field_scan_order\<close>). The second
  does not: a factor is \<open>list(set(...).intersection(set(...)))\<close>, the set forgets the
  order of the state, and the entries are rendered as the set is enumerated, where the
  numerator renders slices of the state in their order. For the state
  \<open>((1, 0), (2, 1), (3, 2), (4, 3))\<close> at order 3 the set of the shared entries is enumerated
  as \<open>(3, 2), (2, 1)\<close> (the enumeration \<open>rev\<close>), and the factor is \<open>P3221[t]\<close>, not
  \<open>P2132[t]\<close>. For the state \<open>a0 b1 c2 d3\<close> the enumeration changes with the hashes of
  the labels: it is \<open>rev\<close> in one process and \<open>id\<close> in another, and the same state is
  rendered \<open>Pc2b1[t]\<close> in the first and \<open>Pb1c2[t]\<close> in the second.
\<close>

theorem get_state_entry_order_lost:
  "get_denominator rev (get_numerator entries_1234 3)
     = Inr [[VTuple [VInt 3, VInt 2], VTuple [VInt 2, VInt 1]]]
   \<and> get_state rev (VTuple entries_1234) 3 = Inr ''P102132[t] P213243[t]/(P3221[t])''
   \<and> get_denominator rev (get_numerator entries_abcd 3)
     = Inr [[VTuple [VStr ''c'', VInt 2], VTuple [VStr ''b'', VInt 1]]]
   \<and> get_state rev (VTuple entries_abcd) 3 = Inr ''Pa0b1c2[t] Pb1c2d3[t]/(Pc2b1[t])''
   \<and> get_state id (VTuple entries_abcd) 3 = Inr ''Pa0b1c2[t] Pb1c2d3[t]/(Pb1c2[t])''"
  by code_simp

section \<open>The assembled equation: claims C1, C2 and C3\<close>

text \<open>
  C1, as the code has it. For the record of the example, with the weighted state written
  as \<open>((state,), 2)\<close>, \<open>get_equation\<close> returns
  \<open>D[Pa0b1[t], t] == 2 K1 P('a', 0)('b', 1)[t]\<close>: the sign in front of the first clause
  is deleted, so no \<open>+\<close> precedes the multiplicity, and the single entry of the 1-tuple is
  printed as the two pairs it holds. With the weighted state \<open>(state, 2)\<close> the result is
  \<open>D[Pa0b1[t], t] == 2 K1 Pa0b1[t]\<close>.
\<close>

theorem get_equation_create_example:
  "get_equation id
     (VTuple [state_a0b1,
        VDict [(VStr ''k1'', VList [VTuple [VTuple [state_a0b1], VInt 2]])],
        VDict [(VStr ''k1'', VList [])]]) 0
     = Inr ''D[Pa0b1[t], t] == 2 K1 P('a', 0)('b', 1)[t]''
   \<and> get_equation id
     (VTuple [state_a0b1,
        VDict [(VStr ''k1'', VList [VTuple [state_a0b1, VInt 2]])],
        VDict [(VStr ''k1'', VList [])]]) 0
     = Inr ''D[Pa0b1[t], t] == 2 K1 Pa0b1[t]''"
  by code_simp

text \<open>C1 as stated fails: the result is not \<open>D[Pa0b1[t], t] == + 2 K1 Pa0b1[t]\<close>, neither
  for the record as written nor with the weighted state \<open>(state, 2)\<close>.\<close>

theorem get_equation_create_example_counterexample:
  "get_equation id
     (VTuple [state_a0b1,
        VDict [(VStr ''k1'', VList [VTuple [VTuple [state_a0b1], VInt 2]])],
        VDict [(VStr ''k1'', VList [])]]) 0
     \<noteq> Inr ''D[Pa0b1[t], t] == + 2 K1 Pa0b1[t]''
   \<and> get_equation id
     (VTuple [state_a0b1,
        VDict [(VStr ''k1'', VList [VTuple [state_a0b1, VInt 2]])],
        VDict [(VStr ''k1'', VList [])]]) 0
     \<noteq> Inr ''D[Pa0b1[t], t] == + 2 K1 Pa0b1[t]''"
  by code_simp

text \<open>
  C2, as the code has it. For the record with an empty creation list and the decay list
  \<open>[(state, 1)]\<close>, \<open>get_equation\<close> returns \<open>D[Pa0b1[t], t] == -K1 Pa0b1[t]\<close>: the leading
  minus is kept and put back directly in front of the rate, with no space between them.
\<close>

theorem get_equation_decay_example:
  "get_equation id
     (VTuple [state_a0b1,
        VDict [(VStr ''k1'', VList [])],
        VDict [(VStr ''k1'', VList [VTuple [state_a0b1, VInt 1]])]]) 0
     = Inr ''D[Pa0b1[t], t] == -K1 Pa0b1[t]''"
  by code_simp

text \<open>C2 as stated fails: the result is not \<open>D[Pa0b1[t], t] == - K1 Pa0b1[t]\<close>.\<close>

theorem get_equation_decay_example_counterexample:
  "get_equation id
     (VTuple [state_a0b1,
        VDict [(VStr ''k1'', VList [])],
        VDict [(VStr ''k1'', VList [VTuple [state_a0b1, VInt 1]])]]) 0
     \<noteq> Inr ''D[Pa0b1[t], t] == - K1 Pa0b1[t]''"
  by code_simp

text \<open>
  C3. The claim is that every validated record yields a text. The code does not: a
  record whose only rate has an empty creation list and an empty decay list passes
  \<open>validate_equation\<close>, contributes nothing, and \<open>format_equation_string\<close> then reads the
  first character of the empty text: IndexError. The same holds for every record with a
  well-formed target state whose lists are all empty (\<open>get_equation_all_lists_empty\<close>),
  and these are the only validated records that fail: with text keys, well-formed
  weighted states and at least one list that is not empty, a text is returned
  (\<open>get_equation_returns\<close>).
\<close>

theorem get_equation_empty_lists:
  "validate_equation
     (VTuple [state_a0b1, VDict [(VStr ''k1'', VList [])], VDict [(VStr ''k1'', VList [])]])
     = Inr ()
   \<and> get_equation id
     (VTuple [state_a0b1, VDict [(VStr ''k1'', VList [])], VDict [(VStr ''k1'', VList [])]]) 0
     = Inl IndexError"
  by code_simp

section \<open>Validation of the key sets: claim C4\<close>

text \<open>
  C4. For a record whose creation and decay dictionaries have different key sets,
  whatever the lists under the keys, \<open>validate_equation\<close> raises, and \<open>get_equation\<close>
  raises the same error: nothing is rendered, since rendering starts only after the
  validation has returned. For a well-formed target state the error is ValueError.
\<close>

theorem key_sets_differ:
  assumes "set (map fst creation) \<noteq> set (map fst decay)"
  shows "\<exists>e. validate_equation (VTuple [st, VDict creation, VDict decay]) = Inl e
    \<and> get_equation so (VTuple [st, VDict creation, VDict decay]) k = Inl e
    \<and> (well_formed st \<longrightarrow> e = ValueError)"
proof (cases "validate_state0 st")
  case (Inl e)
  then show ?thesis
    using validate_state0_ok [of st]
    by (auto simp: validate_equation_def get_equation_def)
next
  case (Inr u)
  then show ?thesis
    using assms by (simp add: validate_equation_def get_equation_def)
qed

theorem key_sets_differ_witness:
  "set (map fst [(VStr ''k1'', VList [])]) \<noteq> set (map fst [(VStr ''k2'', VList [])])
   \<and> validate_equation
        (VTuple [state_a0b1, VDict [(VStr ''k1'', VList [])], VDict [(VStr ''k2'', VList [])]])
      = Inl ValueError
   \<and> get_equation id
        (VTuple [state_a0b1, VDict [(VStr ''k1'', VList [])], VDict [(VStr ''k2'', VList [])]]) 0
      = Inl ValueError"
proof -
  have keys: "set (map fst [(VStr ''k1'', VList [])]) \<noteq> set (map fst [(VStr ''k2'', VList [])])"
    by simp
  have wf: "well_formed state_a0b1"
    by (simp add: well_formed_def is_pair_def)
  from key_sets_differ [OF keys, of state_a0b1 id 0] wf keys show ?thesis
    by auto
qed

section \<open>Multiplicities that are not above one: claim C10\<close>

text \<open>
  C10. For a weighted state \<open>(state, m)\<close> with an integer \<open>m \<le> 1\<close>, zero and negative
  included, \<open>format_state_multiplicity\<close> returns what \<open>get_state\<close> returns for the state:
  no prefix is added, the result is the one for multiplicity 1, and no error is raised
  for a well-formed state and an order that is not negative.
\<close>

theorem multiplicity_not_above_one:
  assumes "m \<le> 1"
  shows "format_state_multiplicity so k (VTuple [s, VInt m]) = get_state so s k
    \<and> format_state_multiplicity so k (VTuple [s, VInt m])
        = format_state_multiplicity so k (VTuple [s, VInt 1])
    \<and> (well_formed s \<and> 0 \<le> k \<and> hashable s \<and> set_order so \<longrightarrow>
         (\<exists>t. format_state_multiplicity so k (VTuple [s, VInt m]) = Inr t))"
proof -
  have eq: "format_state_multiplicity so k (VTuple [s, VInt n]) = get_state so s k"
    if "n \<le> 1" for n
    using that
    by (simp add: format_state_multiplicity_def py_len_def py_getitem_def py_gt_def
        and_then_def split: sum.splits)
  show ?thesis
    using eq [OF assms] eq [of 1] get_state_total [of s k so] by auto
qed

theorem multiplicity_not_above_one_witness:
  "(- 3::int) \<le> 1 \<and> well_formed state_a0b1 \<and> hashable state_a0b1 \<and> set_order id
   \<and> format_state_multiplicity id 0 (VTuple [state_a0b1, VInt (- 3)]) = Inr ''Pa0b1[t]''
   \<and> format_state_multiplicity id 0 (VTuple [state_a0b1, VInt 1]) = Inr ''Pa0b1[t]''"
proof -
  have m: "(- 3::int) \<le> 1"
    by simp
  have wf: "well_formed state_a0b1"
    by (simp add: well_formed_def is_pair_def)
  have hash: "hashable state_a0b1"
    by simp
  have so: "set_order id"
    by (simp add: set_order_def)
  have render: "get_state id state_a0b1 0 = Inr ''Pa0b1[t]''"
    by code_simp
  from multiplicity_not_above_one [OF m, of id 0 state_a0b1] m wf hash so render
  show ?thesis
    by metis
qed

section \<open>One state or several in a clause: claim C8\<close>

text \<open>
  C8. A create-only or decay-only clause is \<open>format_create_decay_single\<close> applied to the
  weighted states rendered by \<open>format_state_multiplicity\<close>. For exactly one weighted state
  with a multiplicity above one, the clause is the sign, the numeral, a space, the rate,
  a space and the state: the numeral stands directly before the rate and there are no
  parentheses. For two or more weighted states, the clause is the sign, the rate, and in
  parentheses the states joined by \<open>+\<close>, each with its own multiplicity in front when
  that is above one.
\<close>

theorem single_and_multi_clause:
  assumes "get_rate key = Inr rate"
  shows "(1 < m \<and> get_state so s k = Inr t \<longrightarrow>
       and_then (map_err (format_state_multiplicity so k) [VTuple [s, VInt m]])
         (\<lambda>states. format_create_decay_single key states decay)
       = Inr ((if decay then ''-'' else ''+'') @ string_of_int m @ '' '' @ rate @ '' '' @ t))
    \<and> (2 \<le> length sms \<and> (\<forall>(s', m') \<in> set sms. get_state so s' k = Inr (r s')) \<longrightarrow>
       and_then (map_err (format_state_multiplicity so k)
                  (map (\<lambda>(s', m'). VTuple [s', VInt m']) sms))
         (\<lambda>states. format_create_decay_single key states decay)
       = Inr ((if decay then ''-'' else ''+'') @ rate @ '' (''
              @ py_join ''+''
                  (map (\<lambda>(s', m'). (if 1 < m' then string_of_int m' else []) @ r s') sms)
              @ '')''))"
proof -
  have fsm: "format_state_multiplicity so k (VTuple [s', VInt m'])
      = Inr ((if 1 < m' then string_of_int m' else []) @ t')"
    if "get_state so s' k = Inr t'" for s' m' t'
    using that
    by (simp add: format_state_multiplicity_def py_len_def py_getitem_def py_gt_def
        py_str_def)
  have single: "and_then (map_err (format_state_multiplicity so k) [VTuple [s, VInt m]])
         (\<lambda>states. format_create_decay_single key states decay)
       = Inr ((if decay then ''-'' else ''+'') @ string_of_int m @ '' '' @ rate @ '' '' @ t)"
    if m: "1 < m" and t: "get_state so s k = Inr t"
  proof -
    from get_state_P [OF t] obtain t' where t': "t = CHR ''P'' # t'"
      by blast
    have "\<forall>c \<in> set (string_of_int m). py_isnumeric c"
      using m string_of_nat_numeric by (simp add: string_of_int_def)
    then have "get_prefactor (string_of_int m @ t) = (string_of_int m, t)"
      unfolding t' by (rule get_prefactor_digits)
    then show ?thesis
      using m by (simp add: fsm [OF t] format_create_decay_single_def assms)
  qed
  have multi: "and_then (map_err (format_state_multiplicity so k)
                  (map (\<lambda>(s', m'). VTuple [s', VInt m']) sms))
         (\<lambda>states. format_create_decay_single key states decay)
       = Inr ((if decay then ''-'' else ''+'') @ rate @ '' (''
              @ py_join ''+''
                  (map (\<lambda>(s', m'). (if 1 < m' then string_of_int m' else []) @ r s') sms)
              @ '')'')"
    if len: "2 \<le> length sms" and r: "\<forall>(s', m') \<in> set sms. get_state so s' k = Inr (r s')"
  proof -
    have "map_err (format_state_multiplicity so k) (map (\<lambda>(s', m'). VTuple [s', VInt m']) sms)
        = Inr (map (\<lambda>x. case x of VTuple [s', VInt m'] \<Rightarrow> (if 1 < m' then string_of_int m' else []) @ r s')
                (map (\<lambda>(s', m'). VTuple [s', VInt m']) sms))"
      using r by (intro map_err_Inr) (auto simp: fsm)
    also have "\<dots> = Inr (map (\<lambda>(s', m'). (if 1 < m' then string_of_int m' else []) @ r s') sms)"
      by (simp add: comp_def case_prod_unfold)
    finally show ?thesis
      using len by (simp add: format_create_decay_single_def assms)
  qed
  show ?thesis
    using single multi by blast
qed


theorem single_and_multi_clause_witness:
  "get_rate (VStr ''k1'') = Inr ''K1'' \<and> get_state id state_a0b1 0 = Inr ''Pa0b1[t]''
   \<and> and_then (map_err (format_state_multiplicity id 0) [VTuple [state_a0b1, VInt 3]])
         (\<lambda>states. format_create_decay_single (VStr ''k1'') states False)
       = Inr ''+3 K1 Pa0b1[t]''
   \<and> and_then (map_err (format_state_multiplicity id 0)
                  [VTuple [state_a0b1, VInt 2], VTuple [state_a0b1, VInt 1]])
         (\<lambda>states. format_create_decay_single (VStr ''k1'') states True)
       = Inr ''-K1 (2Pa0b1[t]+Pa0b1[t])''"
proof -
  have rate: "get_rate (VStr ''k1'') = Inr ''K1''"
    by code_simp
  have render: "get_state id state_a0b1 0 = Inr ''Pa0b1[t]''"
    by code_simp
  have digits: "string_of_int 3 = ''3''" "string_of_int 2 = ''2''"
    by (simp_all add: string_of_int_def string_of_nat.simps digit_char_def)
  from single_and_multi_clause [OF rate, of 3 id state_a0b1 0 "''Pa0b1[t]''" False
      "[(state_a0b1, 2), (state_a0b1, 1)]" "\<lambda>_. ''Pa0b1[t]''"]
    single_and_multi_clause [OF rate, of 3 id state_a0b1 0 "''Pa0b1[t]''" True
      "[(state_a0b1, 2), (state_a0b1, 1)]" "\<lambda>_. ''Pa0b1[t]''"]
    rate render digits
  show ?thesis
    by simp
qed

end
